theory Spec2Isabelle
  imports Complex_Main
begin

section \<open>Values exchanged with the training server\<close>

text \<open>
  The page (\<open>page.tsx\<close>, latest revision) talks to the backend through \<open>fetch\<close> and one
  WebSocket per dashboard connection. A decoded JSON document is a value of \<open>json\<close>; an
  object lists its own properties. JavaScript's \<open>undefined\<close> is \<open>None\<close> in a
  \<open>json option\<close>. Numbers are the decoded values; the page never computes with them.
\<close>

datatype json =
    JNull
  | JBool bool
  | JNum rat
  | JStr string
  | JArr "json list"
  | JObj "(string \<times> json) list"

text \<open>
  \<open>v.name\<close> for one of the names the page reads (\<open>episode\<close>, \<open>status\<close>, \<open>error\<close>).
  On an object it is the property or \<open>undefined\<close>; on a number, string, boolean or array
  none of these names exists, so the read is \<open>undefined\<close>. Reading a property of \<open>null\<close>
  throws a \<open>TypeError\<close>: the caller handles \<open>JNull\<close> before it reads.
\<close>

fun js_prop :: "json \<Rightarrow> string \<Rightarrow> json option" where
  "js_prop (JObj fields) name = map_of fields name"
| "js_prop _ name = None"

text \<open>JavaScript truthiness of a value read from a decoded document.\<close>

fun truthy :: "json option \<Rightarrow> bool" where
  "truthy None = False"
| "truthy (Some JNull) = False"
| "truthy (Some (JBool b)) = b"
| "truthy (Some (JNum n)) = (n \<noteq> 0)"
| "truthy (Some (JStr s)) = (s \<noteq> [])"
| "truthy (Some (JArr xs)) = True"
| "truthy (Some (JObj fields)) = True"

text \<open>\<open>interface Simulation\<close>.\<close>

record simulation =
  simulation_id :: string
  model_xml :: string
  xml_key :: string

text \<open>
  What an awaited \<open>fetch\<close> followed by \<open>response.json()\<close> gives the handler: the
  \<open>fetch\<close> promise rejects, or there is a response with its \<open>ok\<close> flag and its body,
  \<open>None\<close> when \<open>response.json()\<close> rejects.
\<close>

datatype 'a response = Network_failure | Response bool "'a option"

text \<open>
  The body of a \<open>plan_edits\<close> response, as far as the handler reads it: \<open>plan.edits\<close>,
  \<open>None\<close> when the property is missing or \<open>null\<close>. Edits are opaque documents that are
  passed on unchanged.
\<close>

record plan =
  edits :: "json list option"

text \<open>
  The body of an \<open>apply_edits\<close> response. The handler reads \<open>simulation_id\<close> and
  \<open>model_xml\<close>; \<open>resp_xml_key\<close> is the key the body carries, if it carries one.
\<close>

record new_sim_data =
  resp_simulation_id :: string
  resp_model_xml :: string
  resp_xml_key :: "string option"

text \<open>The request bodies handed to \<open>fetch\<close>, as the objects given to \<open>JSON.stringify\<close>.\<close>

datatype request =
    Plan_edits string string
  | Apply_edits string "json list"

fun request_key :: "request \<Rightarrow> string" where
  "request_key (Plan_edits prompt key) = key"
| "request_key (Apply_edits key es) = key"

section \<open>The page's state\<close>

text \<open>
  \<open>WebSocket.readyState\<close>, and a socket as the page sees it: the frames it was asked to
  send (the objects given to \<open>JSON.stringify\<close>), and the values of \<open>isRunning\<close> and
  \<open>statusMessage\<close> that its \<open>onopen\<close> and \<open>onclose\<close> closures captured from the render
  in which the connection effect created it.
\<close>

datatype ready_state = CONNECTING | OPEN | CLOSING | CLOSED

record websocket =
  url :: string
  readyState :: ready_state
  sent :: "json list"
  captured_isRunning :: bool
  captured_statusMessage :: string

text \<open>
  A call of \<open>handleRefineSubmit\<close> suspended at an \<open>await\<close>: which response it waits for,
  and the \<open>prompt\<close> and \<open>currentSim\<close> of its closure.
\<close>

datatype phase = Planning | Applying

record refine_call =
  awaiting :: phase
  call_prompt :: string
  call_sim :: simulation

text \<open>
  The state of \<open>SimulationLayout\<close> (\<open>currentSim\<close>, \<open>isSimRunning\<close>, \<open>resetTrigger\<close>,
  \<open>isRefining\<close>, the refine form's input), of \<open>DashboardContainer\<close> (\<open>data\<close>,
  \<open>statusMessage\<close>, the \<open>ws\<close> ref, the cleanup the connection effect returned), and of
  the environment they act on (suspended refine calls, requests issued, sockets created).
  The two sidebar toggles only change the layout and are left out. \<open>resetTrigger\<close>
  counts exactly.
\<close>

record app =
  currentSim :: simulation
  isSimRunning :: bool
  resetTrigger :: nat
  isRefining :: bool
  input_value :: string
  in_flight :: "refine_call list"
  requests :: "request list"
  data :: "json list"
  statusMessage :: string
  ws_current :: "nat option"
  cleanup :: "nat option"
  sockets :: "websocket list"

section \<open>The refine handler\<close>

definition remove_nth :: "nat \<Rightarrow> 'a list \<Rightarrow> 'a list" where
  "remove_nth i xs = take i xs @ drop (Suc i) xs"

text \<open>
  \<open>handleRefineSubmit\<close> up to its first \<open>await\<close>: the guard, \<open>setIsRefining(true)\<close>
  and the \<open>plan_edits\<close> request with the key of \<open>currentSim\<close>.
\<close>

definition handleRefineSubmit :: "app \<Rightarrow> app" where
  "handleRefineSubmit s =
     (let prompt = input_value s in
      if prompt = [] \<or> isRefining s then s
      else s\<lparr>isRefining := True,
             requests := requests s @ [Plan_edits prompt (xml_key (currentSim s))],
             in_flight := in_flight s @
               [\<lparr>awaiting = Planning, call_prompt = prompt, call_sim = currentSim s\<rparr>]\<rparr>)"

text \<open>The \<open>catch\<close> block logs; the \<open>finally\<close> block runs \<open>setIsRefining(false)\<close>.\<close>

definition refine_failed :: "nat \<Rightarrow> app \<Rightarrow> app" where
  "refine_failed i s = s\<lparr>isRefining := False, in_flight := remove_nth i (in_flight s)\<rparr>"

text \<open>
  The call resumes with the \<open>plan_edits\<close> response: a rejected \<open>fetch\<close>, a response that
  is not \<open>ok\<close> and a body that does not decode all end in \<open>catch\<close>; no edits clears the
  input and returns; otherwise the \<open>apply_edits\<close> request is issued with the key of the
  closure's \<open>currentSim\<close> and the call waits again.
\<close>

definition plan_resolved :: "nat \<Rightarrow> plan response \<Rightarrow> app \<Rightarrow> app" where
  "plan_resolved i r s =
     (if i < length (in_flight s) \<and> awaiting (in_flight s ! i) = Planning then
        (let c = in_flight s ! i in
         case r of
           Network_failure \<Rightarrow> refine_failed i s
         | Response ok body \<Rightarrow>
             if \<not> ok then refine_failed i s
             else (case body of
                 None \<Rightarrow> refine_failed i s
               | Some p \<Rightarrow>
                   (case edits p of
                      None \<Rightarrow>
                        s\<lparr>input_value := [], isRefining := False,
                          in_flight := remove_nth i (in_flight s)\<rparr>
                    | Some [] \<Rightarrow>
                        s\<lparr>input_value := [], isRefining := False,
                          in_flight := remove_nth i (in_flight s)\<rparr>
                    | Some (e # es) \<Rightarrow>
                        s\<lparr>requests := requests s @
                            [Apply_edits (xml_key (call_sim c)) (e # es)],
                          in_flight := (in_flight s)[i := c\<lparr>awaiting := Applying\<rparr>]\<rparr>)))
      else s)"

text \<open>
  The call resumes with the \<open>apply_edits\<close> response. On success \<open>setCurrentSim\<close> takes
  \<open>simulation_id\<close> and \<open>model_xml\<close> from the body and \<open>xml_key\<close> from the closure's
  \<open>currentSim\<close>; \<open>resetTrigger\<close> is incremented and the input cleared.
\<close>

definition apply_resolved :: "nat \<Rightarrow> new_sim_data response \<Rightarrow> app \<Rightarrow> app" where
  "apply_resolved i r s =
     (if i < length (in_flight s) \<and> awaiting (in_flight s ! i) = Applying then
        (let c = in_flight s ! i in
         case r of
           Network_failure \<Rightarrow> refine_failed i s
         | Response ok body \<Rightarrow>
             if \<not> ok then refine_failed i s
             else (case body of
                 None \<Rightarrow> refine_failed i s
               | Some newSimData \<Rightarrow>
                   s\<lparr>currentSim :=
                       \<lparr>simulation_id = resp_simulation_id newSimData,
                        model_xml = resp_model_xml newSimData,
                        xml_key = xml_key (call_sim c)\<rparr>,
                     resetTrigger := resetTrigger s + 1,
                     input_value := [],
                     isRefining := False,
                     in_flight := remove_nth i (in_flight s)\<rparr>))
      else s)"

section \<open>The dashboard's connection\<close>

definition getInitialData :: "json list" where
  "getInitialData =
     [JObj [(''episode'', JNum 0), (''reward'', JNum 0), (''length'', JNum 0)]]"

text \<open>\<open>{ command: isRunning ? "run" : "pause" }\<close>.\<close>

definition command_frame :: "bool \<Rightarrow> json" where
  "command_frame isRunning =
     JObj [(''command'', JStr (if isRunning then ''run'' else ''pause''))]"

text \<open>\<open>socket.close()\<close>: an open or connecting socket starts closing; otherwise nothing.\<close>

definition ws_close :: "nat \<Rightarrow> app \<Rightarrow> app" where
  "ws_close i s =
     (if i < length (sockets s) \<and> readyState (sockets s ! i) \<in> {CONNECTING, OPEN}
      then s\<lparr>sockets := (sockets s)[i := (sockets s ! i)\<lparr>readyState := CLOSING\<rparr>]\<rparr>
      else s)"

definition ws_send :: "nat \<Rightarrow> json \<Rightarrow> app \<Rightarrow> app" where
  "ws_send i frame s =
     (if i < length (sockets s)
      then s\<lparr>sockets := (sockets s)[i := (sockets s ! i)\<lparr>sent := sent (sockets s ! i) @ [frame]\<rparr>]\<rparr>
      else s)"

text \<open>
  The effect with dependencies \<open>[simulationId, resetTrigger]\<close>, run for a render whose
  state is \<open>s\<close>: first the cleanup the previous run returned, then the body. The new
  socket's handlers close over \<open>isRunning\<close> and \<open>statusMessage\<close> of that render.
\<close>

definition connection_effect :: "app \<Rightarrow> app" where
  "connection_effect s =
     (let s1 = (case cleanup s of None \<Rightarrow> s | Some j \<Rightarrow> ws_close j s) in
      if simulation_id (currentSim s1) = [] then s1\<lparr>cleanup := None\<rparr>
      else
        (let s2 = (case ws_current s1 of None \<Rightarrow> s1 | Some j \<Rightarrow> ws_close j s1);
             newWs = \<lparr>url = ''ws://localhost:8000/ws/train/'' @ simulation_id (currentSim s),
                      readyState = CONNECTING,
                      sent = [],
                      captured_isRunning = isSimRunning s,
                      captured_statusMessage = statusMessage s\<rparr>
         in s2\<lparr>data := getInitialData,
               statusMessage := ''Connecting to training server...'',
               sockets := sockets s2 @ [newWs],
               ws_current := Some (length (sockets s2)),
               cleanup := Some (length (sockets s2))\<rparr>))"

text \<open>The effect with dependencies \<open>[isRunning]\<close>.\<close>

definition run_state_effect :: "app \<Rightarrow> app" where
  "run_state_effect s =
     (case ws_current s of
        None \<Rightarrow> s
      | Some j \<Rightarrow>
          if j < length (sockets s) \<and> readyState (sockets s ! j) = OPEN
          then ws_send j (command_frame (isSimRunning s)) s
          else s)"

definition onopen :: "nat \<Rightarrow> app \<Rightarrow> app" where
  "onopen i s =
     ws_send i (command_frame (captured_isRunning (sockets s ! i)))
       (s\<lparr>statusMessage := ''Training started...''\<rparr>)"

text \<open>
  \<open>onmessage\<close>, given what \<open>JSON.parse(event.data)\<close> returns (\<open>None\<close> when it throws).
  \<open>str\<close> is the text a template literal gives a value. First the \<open>try\<close> block: it
  ends in the exception thrown (\<open>JSON.parse\<close> throws a \<open>SyntaxError\<close>; reading
  \<open>.episode\<close> of \<open>null\<close> throws a \<open>TypeError\<close>) or in the state its branch leaves.
  The handler does not look at which socket the frame came from.
\<close>

datatype js_error = SyntaxError | TypeError

definition onmessage_try :: "(json \<Rightarrow> string) \<Rightarrow> json option \<Rightarrow> app \<Rightarrow> js_error + app" where
  "onmessage_try str parsed s =
     (case parsed of
        None \<Rightarrow> Inl SyntaxError
      | Some JNull \<Rightarrow> Inl TypeError
      | Some newDataPoint \<Rightarrow>
          Inr (case js_prop newDataPoint ''episode'' of
             Some episode \<Rightarrow>
               s\<lparr>data := data s @ [newDataPoint],
                 statusMessage := ''Training... Episode: '' @ str episode\<rparr>
           | None \<Rightarrow>
               if js_prop newDataPoint ''status'' = Some (JStr ''complete'')
               then s\<lparr>statusMessage := ''Training Complete!'', isSimRunning := False\<rparr>
               else (case js_prop newDataPoint ''error'' of
                       None \<Rightarrow> s
                     | Some err \<Rightarrow>
                         if truthy (Some err)
                         then s\<lparr>statusMessage := ''Error: '' @ str err, isSimRunning := False\<rparr>
                         else s)))"

text \<open>
  Then the \<open>catch\<close> block, whose only statement is
  \<open>console.error("Failed to parse WebSocket message:", err)\<close>: the handler as a whole
  gives what it writes to the console and the state it leaves, and it never throws.
  Of the page's console output only this line is modelled.
\<close>

datatype console_entry = Console_error string js_error

definition onmessage_logged ::
    "(json \<Rightarrow> string) \<Rightarrow> json option \<Rightarrow> app \<Rightarrow> console_entry list \<times> app" where
  "onmessage_logged str parsed s =
     (case onmessage_try str parsed s of
        Inl err \<Rightarrow> ([Console_error ''Failed to parse WebSocket message:'' err], s)
      | Inr s' \<Rightarrow> ([], s'))"

definition onmessage :: "(json \<Rightarrow> string) \<Rightarrow> json option \<Rightarrow> app \<Rightarrow> app" where
  "onmessage str parsed s = snd (onmessage_logged str parsed s)"

definition onerror :: "app \<Rightarrow> app" where
  "onerror s = s\<lparr>statusMessage := ''Connection error. Is the server running?''\<rparr>"

text \<open>\<open>statusMessage.startsWith("Training")\<close> on the closure's \<open>statusMessage\<close>.\<close>

definition onclose :: "nat \<Rightarrow> app \<Rightarrow> app" where
  "onclose i s =
     (if take 8 (captured_statusMessage (sockets s ! i)) = ''Training''
      then s\<lparr>statusMessage := ''Training connection lost.''\<rparr>
      else s)"

section \<open>Events\<close>

text \<open>
  Everything runs on one event loop. An event is a user action on the page, the
  resumption of a suspended refine call, or an event of a socket. The browser fires
  \<open>open\<close> on a connecting socket, \<open>message\<close> only while \<open>readyState\<close> is
  \<open>OPEN\<close> (so not after \<open>close()\<close> was called), and nothing on a closed one.
\<close>

datatype event =
    Type_prompt string
  | Submit_refine
  | Click_run
  | Click_pause
  | Click_reset
  | Plan_response nat "plan response"
  | Apply_response nat "new_sim_data response"
  | Ws_open nat
  | Ws_message nat "json option"
  | Ws_error nat
  | Ws_close nat

definition set_readyState :: "nat \<Rightarrow> ready_state \<Rightarrow> app \<Rightarrow> app" where
  "set_readyState i r s = s\<lparr>sockets := (sockets s)[i := (sockets s ! i)\<lparr>readyState := r\<rparr>]\<rparr>"

text \<open>The handler of each event. The refine input is disabled while \<open>isRefining\<close>.\<close>

fun handle :: "(json \<Rightarrow> string) \<Rightarrow> event \<Rightarrow> app \<Rightarrow> app" where
  "handle str (Type_prompt text) s = (if isRefining s then s else s\<lparr>input_value := text\<rparr>)"
| "handle str Submit_refine s = handleRefineSubmit s"
| "handle str Click_run s = s\<lparr>isSimRunning := True\<rparr>"
| "handle str Click_pause s = s\<lparr>isSimRunning := False\<rparr>"
| "handle str Click_reset s = s\<lparr>resetTrigger := resetTrigger s + 1\<rparr>"
| "handle str (Plan_response i r) s = plan_resolved i r s"
| "handle str (Apply_response i r) s = apply_resolved i r s"
| "handle str (Ws_open i) s =
     (if i < length (sockets s) \<and> readyState (sockets s ! i) = CONNECTING
      then onopen i (set_readyState i OPEN s) else s)"
| "handle str (Ws_message i parsed) s =
     (if i < length (sockets s) \<and> readyState (sockets s ! i) = OPEN
      then onmessage str parsed s else s)"
| "handle str (Ws_error i) s =
     (if i < length (sockets s) \<and> readyState (sockets s ! i) \<noteq> CLOSED
      then onerror s else s)"
| "handle str (Ws_close i) s =
     (if i < length (sockets s) \<and> readyState (sockets s ! i) \<noteq> CLOSED
      then onclose i (set_readyState i CLOSED s) else s)"

text \<open>
  After a handler the component renders again, and an effect runs when one of its
  dependencies differs from the previous render's, in the order of declaration.
\<close>

definition effects :: "app \<Rightarrow> app \<Rightarrow> app" where
  "effects prev s =
     (let s1 = (if simulation_id (currentSim s) \<noteq> simulation_id (currentSim prev)
                   \<or> resetTrigger s \<noteq> resetTrigger prev
                then connection_effect s else s)
      in if isSimRunning s \<noteq> isSimRunning prev then run_state_effect s1 else s1)"

definition step :: "(json \<Rightarrow> string) \<Rightarrow> event \<Rightarrow> app \<Rightarrow> app" where
  "step str ev s = effects s (handle str ev s)"

fun run :: "(json \<Rightarrow> string) \<Rightarrow> event list \<Rightarrow> app \<Rightarrow> app" where
  "run str [] s = s"
| "run str (ev # evs) s = run str evs (step str ev s)"

text \<open>
  \<open>SimulationLayout\<close> mounted with the simulation the chatbot entry received: the
  initial \<open>useState\<close> values, then both effects.
\<close>

definition initial :: "simulation \<Rightarrow> app" where
  "initial sim =
     \<lparr>currentSim = sim, isSimRunning = True, resetTrigger = 0, isRefining = False,
      input_value = [], in_flight = [], requests = [],
      data = getInitialData, statusMessage = ''Connecting to training server...'',
      ws_current = None, cleanup = None, sockets = []\<rparr>"

definition mount :: "simulation \<Rightarrow> app" where
  "mount sim = run_state_effect (connection_effect (initial sim))"

section \<open>Notions used in the statements\<close>

text \<open>
  A frame that reaches one of the two terminal branches of \<open>onmessage\<close>: it has no
  \<open>episode\<close> property, and its \<open>status\<close> is \<open>"complete"\<close> or its \<open>error\<close> is truthy.
\<close>

definition terminal_frame :: "json \<Rightarrow> bool" where
  "terminal_frame d =
     (js_prop d ''episode'' = None \<and>
      (js_prop d ''status'' = Some (JStr ''complete'') \<or> truthy (js_prop d ''error'')))"

text \<open>The numeric \<open>episode\<close> values of a series, in order.\<close>

definition episode_number :: "json \<Rightarrow> rat option" where
  "episode_number d = (case js_prop d ''episode'' of Some (JNum n) \<Rightarrow> Some n | _ \<Rightarrow> None)"

definition episode_numbers :: "json list \<Rightarrow> rat list" where
  "episode_numbers ds = List.map_filter episode_number ds"

text \<open>
  The events after which the connection effect runs: the Reset button, and the success
  path of a refine call waiting for its \<open>apply_edits\<close> response.
\<close>

definition reconnecting :: "event \<Rightarrow> app \<Rightarrow> bool" where
  "reconnecting ev s =
     (case ev of
        Click_reset \<Rightarrow> True
      | Apply_response i (Response True (Some b)) \<Rightarrow>
          i < length (in_flight s) \<and> awaiting (in_flight s ! i) = Applying
      | _ \<Rightarrow> False)"

text \<open>
  Invariants of the reachable states. On the refine side: at most one call is suspended,
  \<open>isRefining\<close> says whether one is, its closure holds the present \<open>currentSim\<close>, and
  the revision key of \<open>currentSim\<close> and of every request issued is \<open>k\<close>.
\<close>

definition refine_inv :: "string \<Rightarrow> app \<Rightarrow> bool" where
  "refine_inv k s =
     (length (in_flight s) \<le> 1 \<and> isRefining s = (in_flight s \<noteq> []) \<and>
      list_all (\<lambda>c. call_sim c = currentSim s) (in_flight s) \<and>
      xml_key (currentSim s) = k \<and> list_all (\<lambda>r. request_key r = k) (requests s))"

text \<open>
  On the connection side: every socket other than the one in the \<open>ws\<close> ref is closing
  or closed, and the ref never points to one of the first \<open>n\<close> sockets.
\<close>

definition settled :: "ready_state \<Rightarrow> bool" where
  "settled r = (r = CLOSING \<or> r = CLOSED)"

definition sock_inv :: "nat \<Rightarrow> app \<Rightarrow> bool" where
  "sock_inv n s =
     (n \<le> length (sockets s) \<and>
      (\<forall>i < length (sockets s). ws_current s \<noteq> Some i \<longrightarrow> settled (readyState (sockets s ! i))) \<and>
      (\<forall>i < n. ws_current s \<noteq> Some i))"

section \<open>Example sessions\<close>

definition sim1 :: simulation where
  "sim1 = \<lparr>simulation_id = ''sim-1'', model_xml = ''<mujoco/>'', xml_key = ''k1''\<rparr>"

text \<open>
  In the examples \<open>str\<close> is \<open>js_string\<close>, the string JavaScript makes of a decoded
  value: a string is itself, \<open>null\<close> and the booleans print as their names, an array as
  its elements joined by commas (with \<open>null\<close> elements empty), an object as
  \<open>[object Object]\<close>, and a number in decimal. For numbers this is JavaScript's text
  when the number is zero, or its magnitude is at least \<open>10^-6\<close> and below \<open>10^21\<close>
  and its decimal form has at most 15 significant digits; the examples use small
  integers.
\<close>

fun decimal :: "nat \<Rightarrow> string" where
  "decimal n =
     (if n < 10 then [''0123456789'' ! n]
      else decimal (n div 10) @ [''0123456789'' ! (n mod 10)])"

fun fraction :: "nat \<Rightarrow> nat \<Rightarrow> nat \<Rightarrow> string" where
  "fraction 0 r q = []"
| "fraction (Suc fuel) r q =
     (if r = 0 then []
      else (''0123456789'' ! (10 * r div q)) # fraction fuel (10 * r mod q) q)"

definition js_number :: "rat \<Rightarrow> string" where
  "js_number x =
     (let (p, q) = quotient_of x; a = nat \<bar>p\<bar>; b = nat q in
      (if p < 0 then ''-'' else []) @ decimal (a div b) @
      (if a mod b = 0 then [] else ''.'' @ fraction 30 (a mod b) b))"

fun join :: "string list \<Rightarrow> string" where
  "join [] = []"
| "join [x] = x"
| "join (x # y # ys) = x @ '','' @ join (y # ys)"

fun js_string :: "json \<Rightarrow> string" where
  "js_string JNull = ''null''"
| "js_string (JBool b) = (if b then ''true'' else ''false'')"
| "js_string (JNum x) = js_number x"
| "js_string (JStr s) = s"
| "js_string (JArr xs) = join (map (\<lambda>x. if x = JNull then [] else js_string x) xs)"
| "js_string (JObj properties) = ''[object Object]''"

definition point :: "rat \<Rightarrow> json" where
  "point n = JObj [(''episode'', JNum n), (''reward'', JNum 0), (''length'', JNum 10)]"

text \<open>The dashboard once its first socket is open.\<close>

definition opened :: app where
  "opened = run js_string [Ws_open 0] (mount sim1)"

text \<open>Frames with episodes 0, 1, 1, 3, 2, 4 arrive on the open socket.\<close>

definition telemetry_example :: app where
  "telemetry_example =
     run js_string (map (Ws_message 0) [Some (point 0), Some (point 1), Some (point 1),
        Some (point 3), Some (point 2), Some (point 4)]) opened"

text \<open>A refine call after its \<open>plan_edits\<close> request, and after its \<open>apply_edits\<close> request.\<close>

definition plan_ok :: "plan response" where
  "plan_ok = Response True (Some \<lparr>edits = Some [JStr ''stiffen the legs'']\<rparr>)"

definition apply_ok :: "new_sim_data response" where
  "apply_ok =
     Response True (Some \<lparr>resp_simulation_id = ''sim-2'', resp_model_xml = ''<mujoco2/>'',
       resp_xml_key = Some ''k2''\<rparr>)"

definition planning :: app where
  "planning = run js_string [Type_prompt ''stronger'', Submit_refine] (mount sim1)"

definition applying :: app where
  "applying =
     run js_string [Type_prompt ''stronger'', Submit_refine, Plan_response 0 plan_ok] (mount sim1)"

text \<open>The apply succeeds with a body that carries the key \<open>k2\<close>; a second refine follows.\<close>

definition rotation_example :: app where
  "rotation_example =
     run js_string [Apply_response 0 apply_ok, Type_prompt ''lighter'', Submit_refine,
       Plan_response 0 plan_ok] applying"

text \<open>
  The dashboard's session: two telemetry frames, the completion frame, and one more
  telemetry frame.
\<close>

definition scenario :: app where
  "scenario =
     run js_string [Ws_message 0 (Some (point 0)), Ws_message 0 (Some (point 1)),
       Ws_message 0 (Some (JObj [(''status'', JStr ''complete'')])),
       Ws_message 0 (Some (point 2))] opened"

text \<open>The user presses Pause while the first socket is still connecting; then it opens.\<close>

definition paused_before_open :: app where
  "paused_before_open = run js_string [Click_pause, Ws_open 0] (mount sim1)"

section \<open>The message handler, in one piece\<close>

declare decimal.simps [simp del]

lemma onmessage_unfold:
  "onmessage str parsed s =
     (case parsed of
        None \<Rightarrow> s
      | Some JNull \<Rightarrow> s
      | Some newDataPoint \<Rightarrow>
          (case js_prop newDataPoint ''episode'' of
             Some episode \<Rightarrow>
               s\<lparr>data := data s @ [newDataPoint],
                 statusMessage := ''Training... Episode: '' @ str episode\<rparr>
           | None \<Rightarrow>
               if js_prop newDataPoint ''status'' = Some (JStr ''complete'')
               then s\<lparr>statusMessage := ''Training Complete!'', isSimRunning := False\<rparr>
               else (case js_prop newDataPoint ''error'' of
                       None \<Rightarrow> s
                     | Some err \<Rightarrow>
                         if truthy (Some err)
                         then s\<lparr>statusMessage := ''Error: '' @ str err, isSimRunning := False\<rparr>
                         else s)))"
  by (simp add: onmessage_def onmessage_logged_def onmessage_try_def
      split: option.splits json.splits)

section \<open>What each operation leaves alone\<close>

text \<open>
  Closing a socket, sending on it and the two effects touch the sockets and the
  dashboard's own state only.
\<close>

lemma ws_close_fields [simp]:
  "currentSim (ws_close i s) = currentSim s"
  "isSimRunning (ws_close i s) = isSimRunning s"
  "resetTrigger (ws_close i s) = resetTrigger s"
  "isRefining (ws_close i s) = isRefining s"
  "input_value (ws_close i s) = input_value s"
  "in_flight (ws_close i s) = in_flight s"
  "requests (ws_close i s) = requests s"
  "data (ws_close i s) = data s"
  "statusMessage (ws_close i s) = statusMessage s"
  "ws_current (ws_close i s) = ws_current s"
  "cleanup (ws_close i s) = cleanup s"
  "length (sockets (ws_close i s)) = length (sockets s)"
  by (simp_all add: ws_close_def)

lemma ws_send_fields [simp]:
  "currentSim (ws_send i f s) = currentSim s"
  "isSimRunning (ws_send i f s) = isSimRunning s"
  "resetTrigger (ws_send i f s) = resetTrigger s"
  "isRefining (ws_send i f s) = isRefining s"
  "input_value (ws_send i f s) = input_value s"
  "in_flight (ws_send i f s) = in_flight s"
  "requests (ws_send i f s) = requests s"
  "data (ws_send i f s) = data s"
  "statusMessage (ws_send i f s) = statusMessage s"
  "ws_current (ws_send i f s) = ws_current s"
  "cleanup (ws_send i f s) = cleanup s"
  "length (sockets (ws_send i f s)) = length (sockets s)"
  by (simp_all add: ws_send_def)

lemma connection_effect_fields [simp]:
  "currentSim (connection_effect s) = currentSim s"
  "isSimRunning (connection_effect s) = isSimRunning s"
  "resetTrigger (connection_effect s) = resetTrigger s"
  "isRefining (connection_effect s) = isRefining s"
  "input_value (connection_effect s) = input_value s"
  "in_flight (connection_effect s) = in_flight s"
  "requests (connection_effect s) = requests s"
  by (simp_all add: connection_effect_def Let_def split: option.splits)

lemma run_state_effect_fields [simp]:
  "currentSim (run_state_effect s) = currentSim s"
  "isSimRunning (run_state_effect s) = isSimRunning s"
  "resetTrigger (run_state_effect s) = resetTrigger s"
  "isRefining (run_state_effect s) = isRefining s"
  "input_value (run_state_effect s) = input_value s"
  "in_flight (run_state_effect s) = in_flight s"
  "requests (run_state_effect s) = requests s"
  "data (run_state_effect s) = data s"
  "statusMessage (run_state_effect s) = statusMessage s"
  "ws_current (run_state_effect s) = ws_current s"
  "cleanup (run_state_effect s) = cleanup s"
  "length (sockets (run_state_effect s)) = length (sockets s)"
  by (simp_all add: run_state_effect_def split: option.splits)

lemma effects_fields [simp]:
  "currentSim (effects p s) = currentSim s"
  "isSimRunning (effects p s) = isSimRunning s"
  "resetTrigger (effects p s) = resetTrigger s"
  "isRefining (effects p s) = isRefining s"
  "input_value (effects p s) = input_value s"
  "in_flight (effects p s) = in_flight s"
  "requests (effects p s) = requests s"
  by (simp_all add: effects_def Let_def)


text \<open>When no dependency changed, no effect runs.\<close>

lemma effects_same:
  "simulation_id (currentSim s) = simulation_id (currentSim p) \<Longrightarrow>
   resetTrigger s = resetTrigger p \<Longrightarrow> isSimRunning s = isSimRunning p \<Longrightarrow>
   effects p s = s"
  by (simp add: effects_def)

lemma ws_close_readyState:
  "j < length (sockets s) \<Longrightarrow>
   readyState (sockets (ws_close i s) ! j) =
     (if j = i \<and> readyState (sockets s ! j) \<in> {CONNECTING, OPEN} then CLOSING
      else readyState (sockets s ! j))"
  by (simp add: ws_close_def nth_list_update)

lemma ws_send_readyState:
  "j < length (sockets s) \<Longrightarrow>
   readyState (sockets (ws_send i f s) ! j) = readyState (sockets s ! j)"
  by (simp add: ws_send_def nth_list_update)

lemma mount_fields:
  "currentSim (mount sim) = sim" "requests (mount sim) = []" "in_flight (mount sim) = []"
  "isRefining (mount sim) = False" "isSimRunning (mount sim) = True"
  "input_value (mount sim) = []" "resetTrigger (mount sim) = 0"
  by (simp_all add: mount_def initial_def)

lemma handle_refine_sockets:
  "sockets (handleRefineSubmit s) = sockets s" "ws_current (handleRefineSubmit s) = ws_current s"
  "sockets (plan_resolved i r s) = sockets s" "ws_current (plan_resolved i r s) = ws_current s"
  "sockets (apply_resolved i r' s) = sockets s" "ws_current (apply_resolved i r' s) = ws_current s"
  "sockets (onmessage str p s) = sockets s" "ws_current (onmessage str p s) = ws_current s"
  by (simp_all add: handleRefineSubmit_def plan_resolved_def apply_resolved_def refine_failed_def
      onmessage_unfold Let_def split: response.splits option.splits list.splits json.splits)

lemma handlers_isSimRunning:
  "isSimRunning (handleRefineSubmit s) = isSimRunning s"
  "isSimRunning (plan_resolved i r s) = isSimRunning s"
  "isSimRunning (apply_resolved i r' s) = isSimRunning s"
  "isSimRunning (onopen i s) = isSimRunning s"
  "isSimRunning (onerror s) = isSimRunning s"
  "isSimRunning (onclose i s) = isSimRunning s"
  "isSimRunning (set_readyState i x s) = isSimRunning s"
  by (simp_all add: handleRefineSubmit_def plan_resolved_def apply_resolved_def refine_failed_def
      onopen_def onerror_def onclose_def set_readyState_def Let_def
      split: response.splits option.splits list.splits)

lemma onmessage_fields:
  "currentSim (onmessage str frame s) = currentSim s"
  "resetTrigger (onmessage str frame s) = resetTrigger s"
  "sockets (onmessage str frame s) = sockets s"
  "ws_current (onmessage str frame s) = ws_current s"
  "data (onmessage str frame s) = data s @ [d. Some d \<leftarrow> [frame], js_prop d ''episode'' \<noteq> None]"
  by (simp_all add: onmessage_unfold split: option.splits json.splits)

lemma effects_keep_connection:
  assumes "currentSim s = currentSim p" "resetTrigger s = resetTrigger p"
  shows "data (effects p s) = data s"
    and "statusMessage (effects p s) = statusMessage s"
    and "ws_current (effects p s) = ws_current s"
    and "length (sockets (effects p s)) = length (sockets s)"
    and "j < length (sockets s) \<Longrightarrow>
         readyState (sockets (effects p s) ! j) = readyState (sockets s ! j)"
  using assms
  by (simp_all add: effects_def run_state_effect_def ws_send_readyState split: option.splits)

lemma message_step_data:
  assumes "i < length (sockets s)" "readyState (sockets s ! i) = OPEN"
  shows "data (step str (Ws_message i frame) s) =
         data s @ [d. Some d \<leftarrow> [frame], js_prop d ''episode'' \<noteq> None]"
  using assms by (simp add: step_def effects_keep_connection onmessage_fields)

lemma message_step_status:
  assumes "i < length (sockets s)" "readyState (sockets s ! i) = OPEN"
    and "js_prop d ''episode'' = Some e"
  shows "statusMessage (step str (Ws_message i (Some d)) s) = ''Training... Episode: '' @ str e"
proof -
  have "d \<noteq> JNull" using assms(3) by auto
  then have "statusMessage (onmessage str (Some d) s) = ''Training... Episode: '' @ str e"
    using assms(3) by (cases d) (simp_all add: onmessage_unfold)
  then show ?thesis
    using assms(1,2) by (simp add: step_def effects_keep_connection onmessage_fields)
qed

lemma message_step_sockets:
  assumes "j < length (sockets s)"
  shows "length (sockets (step str (Ws_message i frame) s)) = length (sockets s)"
    and "readyState (sockets (step str (Ws_message i frame) s) ! j) = readyState (sockets s ! j)"
  using assms by (simp_all add: step_def effects_keep_connection onmessage_fields)


section \<open>At most one refine call, one revision key\<close>

lemma short_list: "length xs \<le> Suc 0 \<Longrightarrow> xs = [] \<or> (\<exists>x. xs = [x])"
  by (cases xs) auto

lemma refine_inv_handle:
  assumes "refine_inv k s"
  shows "refine_inv k (handle str ev s)"
proof (cases ev)
  case (Plan_response i r)
  from assms have "in_flight s = [] \<or> (\<exists>c. in_flight s = [c])"
    by (simp add: refine_inv_def short_list)
  with assms Plan_response show ?thesis
    by (auto simp: refine_inv_def plan_resolved_def refine_failed_def remove_nth_def Let_def
        split: response.splits option.splits list.splits)
next
  case (Apply_response i r)
  from assms have "in_flight s = [] \<or> (\<exists>c. in_flight s = [c])"
    by (simp add: refine_inv_def short_list)
  with assms Apply_response show ?thesis
    by (auto simp: refine_inv_def apply_resolved_def refine_failed_def remove_nth_def Let_def
        split: response.splits option.splits)
next
  case Submit_refine
  with assms show ?thesis
    by (auto simp: refine_inv_def handleRefineSubmit_def Let_def)
next
  case (Ws_message i p)
  with assms show ?thesis
    by (auto simp: refine_inv_def onmessage_unfold split: option.splits json.splits)
qed (use assms in \<open>auto simp: refine_inv_def onopen_def onerror_def onclose_def set_readyState_def\<close>)

lemma refine_inv_step: "refine_inv k s \<Longrightarrow> refine_inv k (step str ev s)"
  using refine_inv_handle [of k s str ev] by (simp add: step_def refine_inv_def)

lemma refine_inv_run: "refine_inv k s \<Longrightarrow> refine_inv k (run str evs s)"
  by (induction evs arbitrary: s) (simp_all add: refine_inv_step)

lemma refine_inv_mount: "refine_inv (xml_key sim) (mount sim)"
  by (simp add: refine_inv_def mount_def initial_def)

lemma refine_inv_reach: "refine_inv (xml_key sim) (run str evs (mount sim))"
  by (simp add: refine_inv_run refine_inv_mount)

lemma single_call:
  assumes "refine_inv k s" "i < length (in_flight s)"
  shows "i = 0" "in_flight s = [in_flight s ! 0]" "call_sim (in_flight s ! i) = currentSim s"
    "isRefining s" "remove_nth i (in_flight s) = []" "xml_key (currentSim s) = k"
  using assms by (cases "in_flight s"; simp add: refine_inv_def remove_nth_def)+


section \<open>Only the socket in the ref can be open\<close>

lemma sock_inv_ws_close: "sock_inv n s \<Longrightarrow> sock_inv n (ws_close i s)"
  by (simp add: sock_inv_def ws_close_readyState settled_def)

lemma sock_inv_ws_send: "sock_inv n s \<Longrightarrow> sock_inv n (ws_send i f s)"
  by (simp add: sock_inv_def ws_send_readyState)

lemma settled_after_close:
  "j < length (sockets s) \<Longrightarrow> settled (readyState (sockets s ! j)) \<or> ws_current s = Some j \<Longrightarrow>
   ws_current s = Some c \<Longrightarrow> settled (readyState (sockets (ws_close c s) ! j))"
  by (cases "readyState (sockets s ! j)") (auto simp: ws_close_readyState settled_def)

lemma sock_inv_connection_effect:
  assumes "sock_inv n s"
  shows "sock_inv n (connection_effect s)"
proof -
  define s1 where "s1 = (case cleanup s of None \<Rightarrow> s | Some j \<Rightarrow> ws_close j s)"
  have inv1: "sock_inv n s1"
    using assms by (simp add: s1_def sock_inv_ws_close split: option.splits)
  have id1: "currentSim s1 = currentSim s"
    by (simp add: s1_def split: option.splits)
  show ?thesis
  proof (cases "simulation_id (currentSim s) = []")
    case True
    then have "connection_effect s = s1\<lparr>cleanup := None\<rparr>"
      by (simp add: connection_effect_def s1_def [symmetric] id1 Let_def)
    with inv1 show ?thesis by (simp add: sock_inv_def)
  next
    case False
    define s2 where "s2 = (case ws_current s1 of None \<Rightarrow> s1 | Some j \<Rightarrow> ws_close j s1)"
    have len2: "length (sockets s2) = length (sockets s1)"
      by (simp add: s2_def split: option.splits)
    have all_settled: "settled (readyState (sockets s2 ! j))" if "j < length (sockets s1)" for j
    proof (cases "ws_current s1")
      case None
      with inv1 that show ?thesis by (simp add: s2_def sock_inv_def)
    next
      case (Some c)
      from inv1 that have "settled (readyState (sockets s1 ! j)) \<or> ws_current s1 = Some j"
        by (auto simp: sock_inv_def)
      with that Some show ?thesis
        by (simp add: s2_def settled_after_close)
    qed
    from False obtain w where eq: "connection_effect s =
        s2\<lparr>data := getInitialData, statusMessage := ''Connecting to training server...'',
           sockets := sockets s2 @ [w], ws_current := Some (length (sockets s2)),
           cleanup := Some (length (sockets s2))\<rparr>"
      by (simp add: connection_effect_def s1_def [symmetric] s2_def [symmetric] id1 Let_def)
    from inv1 have "n \<le> length (sockets s1)" by (simp add: sock_inv_def)
    with all_settled show ?thesis
      by (auto simp: eq sock_inv_def len2 nth_append)
  qed
qed

lemma sock_inv_run_state_effect: "sock_inv n s \<Longrightarrow> sock_inv n (run_state_effect s)"
  by (simp add: run_state_effect_def sock_inv_ws_send split: option.splits)

lemma sock_inv_effects: "sock_inv n s \<Longrightarrow> sock_inv n (effects p s)"
  by (simp add: effects_def Let_def sock_inv_connection_effect sock_inv_run_state_effect)

lemma sock_inv_cong:
  "sock_inv n s \<Longrightarrow> sockets t = sockets s \<Longrightarrow> ws_current t = ws_current s \<Longrightarrow> sock_inv n t"
  by (simp add: sock_inv_def)

lemma sock_inv_handle:
  assumes "sock_inv n s"
  shows "sock_inv n (handle str ev s)"
proof (cases ev)
  case (Ws_open i)
  show ?thesis
  proof (cases "i < length (sockets s) \<and> readyState (sockets s ! i) = CONNECTING")
    case True
    with assms have cur: "ws_current s = Some i"
      by (auto simp: sock_inv_def settled_def)
    have "sock_inv n (set_readyState i OPEN s)"
      using assms cur by (auto simp: sock_inv_def set_readyState_def nth_list_update)
    then have "sock_inv n (onopen i (set_readyState i OPEN s))"
      unfolding onopen_def by (intro sock_inv_ws_send) (simp add: sock_inv_def)
    with True Ws_open show ?thesis by simp
  next
    case False
    with assms Ws_open show ?thesis by auto
  qed
next
  case (Ws_close i)
  with assms show ?thesis
    by (auto simp: sock_inv_def onclose_def set_readyState_def nth_list_update settled_def)
next
  case (Ws_error i)
  with assms show ?thesis by (auto simp: sock_inv_def onerror_def)
qed (use assms in \<open>auto intro: sock_inv_cong simp: handle_refine_sockets\<close>)

lemma sock_inv_step: "sock_inv n s \<Longrightarrow> sock_inv n (step str ev s)"
  by (simp add: step_def sock_inv_effects sock_inv_handle)

lemma sock_inv_run: "sock_inv n s \<Longrightarrow> sock_inv n (run str evs s)"
  by (induction evs arbitrary: s) (simp_all add: sock_inv_step)

lemma sock_inv_initial: "sock_inv 0 (initial sim)"
  by (simp add: sock_inv_def initial_def)

lemma sock_inv_mount: "sock_inv 0 (mount sim)"
  by (simp add: mount_def sock_inv_initial sock_inv_connection_effect sock_inv_run_state_effect)

lemma stale_frame_dropped:
  assumes "sock_inv n s" "i < n"
  shows "step str (Ws_message i p) s = s"
proof -
  from assms have "i < length (sockets s)" "ws_current s \<noteq> Some i"
    by (auto simp: sock_inv_def)
  with assms have "settled (readyState (sockets s ! i))"
    by (auto simp: sock_inv_def)
  then have "readyState (sockets s ! i) \<noteq> OPEN" by (auto simp: settled_def)
  then show ?thesis by (simp add: step_def effects_same)
qed

lemma connection_effect_fresh:
  assumes "simulation_id (currentSim s) \<noteq> []"
  shows "data (connection_effect s) = getInitialData"
    and "statusMessage (connection_effect s) = ''Connecting to training server...''"
    and "ws_current (connection_effect s) = Some (length (sockets s))"
    and "length (sockets (connection_effect s)) = Suc (length (sockets s))"
    and "sockets (connection_effect s) ! length (sockets s) =
           \<lparr>url = ''ws://localhost:8000/ws/train/'' @ simulation_id (currentSim s),
            readyState = CONNECTING, sent = [],
            captured_isRunning = isSimRunning s,
            captured_statusMessage = statusMessage s\<rparr>"
  using assms by (simp_all add: connection_effect_def Let_def nth_append split: option.splits)

lemma sock_inv_fresh:
  assumes "sock_inv 0 s" "simulation_id (currentSim s) \<noteq> []"
  shows "sock_inv (length (sockets s)) (connection_effect s)"
proof -
  have "sock_inv 0 (connection_effect s)"
    using assms(1) by (rule sock_inv_connection_effect)
  then show ?thesis
    using connection_effect_fresh(3,4) [OF assms(2)] by (simp add: sock_inv_def)
qed

lemma step_reconnects:
  "resetTrigger (handle str ev s) \<noteq> resetTrigger s \<Longrightarrow>
   isSimRunning (handle str ev s) = isSimRunning s \<Longrightarrow>
   step str ev s = connection_effect (handle str ev s)"
  by (simp add: step_def effects_def)

lemma reconnecting_handle:
  assumes "reconnecting ev s"
  shows "resetTrigger (handle str ev s) = Suc (resetTrigger s)"
    and "isSimRunning (handle str ev s) = isSimRunning s"
    and "sockets (handle str ev s) = sockets s"
    and "ws_current (handle str ev s) = ws_current s"
    and "statusMessage (handle str ev s) = statusMessage s"
  using assms
  by (auto simp: reconnecting_def apply_resolved_def Let_def
      split: event.splits response.splits option.splits bool.splits)

lemma sock_inv_earlier_settled:
  assumes "sock_inv n s" "j < n"
  shows "readyState (sockets s ! j) = CLOSING \<or> readyState (sockets s ! j) = CLOSED"
proof -
  from assms have "j < length (sockets s)" "ws_current s \<noteq> Some j"
    by (auto simp: sock_inv_def)
  with assms(1) have "settled (readyState (sockets s ! j))"
    by (auto simp: sock_inv_def)
  then show ?thesis by (simp add: settled_def)
qed

section \<open>Only the Run button resumes\<close>

lemma onmessage_terminal:
  "terminal_frame t \<Longrightarrow> \<not> isSimRunning (onmessage str (Some t) s)"
  by (cases t) (auto simp: terminal_frame_def onmessage_unfold split: option.splits)

lemma onmessage_never_resumes:
  "\<not> isSimRunning s \<Longrightarrow> \<not> isSimRunning (onmessage str frame s)"
  by (simp add: onmessage_unfold split: option.splits json.splits)

lemma stays_paused_step:
  assumes "ev \<noteq> Click_run" "\<not> isSimRunning s"
  shows "\<not> isSimRunning (step str ev s)"
proof -
  have "\<not> isSimRunning (handle str ev s)"
    using assms by (cases ev) (simp_all add: handlers_isSimRunning onmessage_never_resumes)
  then show ?thesis by (simp add: step_def)
qed

lemma stays_paused_run:
  "Click_run \<notin> set evs \<Longrightarrow> \<not> isSimRunning s \<Longrightarrow> \<not> isSimRunning (run str evs s)"
proof (induction evs arbitrary: s)
  case Nil
  then show ?case by simp
next
  case (Cons ev evs)
  from Cons.prems have "ev \<noteq> Click_run" by auto
  then have "\<not> isSimRunning (step str ev s)"
    using Cons.prems(2) by (rule stays_paused_step)
  with Cons show ?case by simp
qed


section \<open>The example sessions, evaluated\<close>

lemmas example_defs = opened_def mount_def initial_def sim1_def connection_effect_def
  run_state_effect_def step_def effects_def onopen_def ws_send_def ws_close_def set_readyState_def
  getInitialData_def onmessage_unfold point_def js_number_def decimal.simps command_frame_def Let_def

lemma opened_value:
  "opened = \<lparr>currentSim = sim1, isSimRunning = True, resetTrigger = 0, isRefining = False,
      input_value = [], in_flight = [], requests = [],
      data = getInitialData, statusMessage = ''Training started...'',
      ws_current = Some 0, cleanup = Some 0,
      sockets = [\<lparr>url = ''ws://localhost:8000/ws/train/sim-1'', readyState = OPEN,
         sent = [command_frame True], captured_isRunning = True,
         captured_statusMessage = ''Connecting to training server...''\<rparr>]\<rparr>"
  by (simp add: example_defs)

lemma telemetry_example_value:
  "telemetry_example =
     opened\<lparr>data := getInitialData @ [point 0, point 1, point 1, point 3, point 2, point 4],
       statusMessage := ''Training... Episode: 4''\<rparr>"
  by (simp add: telemetry_example_def opened_value step_def effects_def onmessage_unfold point_def
      js_number_def decimal.simps)

lemmas refine_defs = handleRefineSubmit_def plan_resolved_def apply_resolved_def refine_failed_def
  remove_nth_def plan_ok_def apply_ok_def

lemma planning_value:
  "planning = (mount sim1)\<lparr>isRefining := True, input_value := ''stronger'',
      in_flight := [\<lparr>awaiting = Planning, call_prompt = ''stronger'', call_sim = sim1\<rparr>],
      requests := [Plan_edits ''stronger'' ''k1'']\<rparr>"
  by (simp add: planning_def example_defs refine_defs)

lemma applying_value:
  "applying = (mount sim1)\<lparr>isRefining := True, input_value := ''stronger'',
      in_flight := [\<lparr>awaiting = Applying, call_prompt = ''stronger'', call_sim = sim1\<rparr>],
      requests := [Plan_edits ''stronger'' ''k1'', Apply_edits ''k1'' [JStr ''stiffen the legs'']]\<rparr>"
  by (simp add: applying_def example_defs refine_defs)

section \<open>Telemetry\<close>

text \<open>
  C1, as amended. On an open socket every frame that decodes to a value with an
  \<open>episode\<close> property is appended to the series, in arrival order, and no other frame
  adds a point: nothing is dropped for a stale or repeated episode. The series is
  non-decreasing in \<open>episode\<close> only when the arriving frames are.
\<close>

theorem telemetry_appended_in_arrival_order:
  assumes "i < length (sockets s)" and "readyState (sockets s ! i) = OPEN"
  shows "data (run str (map (Ws_message i) frames) s) =
         data s @ [d. Some d \<leftarrow> frames, js_prop d ''episode'' \<noteq> None]"
  using assms
proof (induction frames arbitrary: s)
  case Nil
  then show ?case by simp
next
  case (Cons f fs)
  let ?s = "step str (Ws_message i f) s"
  have "i < length (sockets ?s)" "readyState (sockets ?s ! i) = OPEN"
    using Cons.prems message_step_sockets [of i s str i f] by simp_all
  then have "data (run str (map (Ws_message i) fs) ?s) =
      data ?s @ [d. Some d \<leftarrow> fs, js_prop d ''episode'' \<noteq> None]"
    by (rule Cons.IH)
  then show ?case
    using message_step_data [OF Cons.prems, of str f] by (simp split: option.splits)
qed

text \<open>The frames with episodes 0, 1, 1, 3, 2, 4 are all appended.\<close>

theorem telemetry_appended_witness:
  "0 < length (sockets opened) \<and> readyState (sockets opened ! 0) = OPEN \<and>
   data telemetry_example =
     data opened @ [point 0, point 1, point 1, point 3, point 2, point 4]"
proof -
  have h: "0 < length (sockets opened)" "readyState (sockets opened ! 0) = OPEN"
    by (simp_all add: opened_value)
  show ?thesis
    using h telemetry_appended_in_arrival_order [OF h, of js_string
        "[Some (point 0), Some (point 1), Some (point 1), Some (point 3), Some (point 2),
          Some (point 4)]"]
    by (simp add: telemetry_example_def point_def)
qed

text \<open>
  C1 as stated fails: after the seed point, the episodes 0, 1, 1, 3, 2, 4 give the series
  0, 0, 1, 1, 3, 2, 4, which is neither 0, 1, 3, 4 nor non-decreasing.
\<close>

theorem stale_episodes_not_dropped:
  "episode_numbers (data telemetry_example) = [0, 0, 1, 1, 3, 2, 4] \<and>
   episode_numbers (data telemetry_example) \<noteq> [0, 1, 3, 4] \<and>
   \<not> sorted (episode_numbers (data telemetry_example))"
  by (simp add: telemetry_example_value opened_value point_def episode_numbers_def
      episode_number_def List.map_filter_simps getInitialData_def)

text \<open>
  C2, as amended. A terminal frame leaves the series as it is, but nothing is frozen: a
  later frame with an \<open>episode\<close> property on the same connection is appended, and the
  status line shows training again, with that frame's episode.
\<close>

theorem terminal_frame_not_sticky:
  assumes "i < length (sockets s)" and "readyState (sockets s ! i) = OPEN"
    and "terminal_frame t" and "js_prop d ''episode'' = Some e"
  shows "data (step str (Ws_message i (Some t)) s) = data s \<and>
         data (run str [Ws_message i (Some t), Ws_message i (Some d)] s) = data s @ [d] \<and>
         statusMessage (run str [Ws_message i (Some t), Ws_message i (Some d)] s) =
           ''Training... Episode: '' @ str e"
proof -
  let ?s = "step str (Ws_message i (Some t)) s"
  have unchanged: "data ?s = data s"
    using message_step_data [OF assms(1,2), of str "Some t"] assms(3)
    by (simp add: terminal_frame_def)
  have still_open: "i < length (sockets ?s)" "readyState (sockets ?s ! i) = OPEN"
    using assms(1,2) message_step_sockets [OF assms(1), of str i "Some t"] by simp_all
  then have "data (step str (Ws_message i (Some d)) ?s) = data ?s @ [d]"
    using message_step_data [of i ?s str "Some d"] assms(4) by simp
  moreover have "statusMessage (step str (Ws_message i (Some d)) ?s) =
      ''Training... Episode: '' @ str e"
    using still_open assms(4) by (rule message_step_status)
  ultimately show ?thesis using unchanged by simp
qed

theorem terminal_frame_not_sticky_witness:
  "0 < length (sockets opened) \<and> readyState (sockets opened ! 0) = OPEN \<and>
   terminal_frame (JObj [(''status'', JStr ''complete'')]) \<and>
   js_prop (point 2) ''episode'' = Some (JNum 2) \<and>
   data (step js_string (Ws_message 0 (Some (JObj [(''status'', JStr ''complete'')]))) opened) =
     data opened \<and>
   data (run js_string [Ws_message 0 (Some (JObj [(''status'', JStr ''complete'')])),
      Ws_message 0 (Some (point 2))] opened) = data opened @ [point 2] \<and>
   statusMessage (run js_string [Ws_message 0 (Some (JObj [(''status'', JStr ''complete'')])),
      Ws_message 0 (Some (point 2))] opened) = ''Training... Episode: 2''"
proof -
  have h: "0 < length (sockets opened)" "readyState (sockets opened ! 0) = OPEN"
    "terminal_frame (JObj [(''status'', JStr ''complete'')])"
    "js_prop (point 2) ''episode'' = Some (JNum 2)"
    by (simp_all add: opened_value terminal_frame_def point_def)
  have two: "''Training... Episode: '' @ js_string (JNum 2) = ''Training... Episode: 2''"
    by (simp add: js_number_def decimal.simps)
  note t = terminal_frame_not_sticky [OF h, of js_string]
  have "statusMessage (run js_string [Ws_message 0 (Some (JObj [(''status'', JStr ''complete'')])),
      Ws_message 0 (Some (point 2))] opened) = ''Training... Episode: 2''"
    using t two by (simp only:)
  with h t show ?thesis by blast
qed

text \<open>
  C2 as stated fails: in the session of the specification, the frame with episode 2 that
  follows the completion frame is appended, and the status line shows training again.
\<close>

theorem frame_after_complete_appended:
  "data scenario = getInitialData @ [point 0, point 1, point 2] \<and>
   statusMessage scenario = ''Training... Episode: 2''"
  by (simp add: scenario_def opened_value step_def effects_def Let_def onmessage_unfold point_def
      js_number_def decimal.simps run_state_effect_def ws_send_def command_frame_def)

text \<open>
  C9. A frame that \<open>JSON.parse\<close> rejects makes the \<open>try\<close> block end in the
  \<open>SyntaxError\<close>; the handler catches it, writes one error line to the console and
  leaves the state as it was. On any socket, open or not, the event changes nothing,
  not the series, not the status line, not any other part of the state, and the session
  goes on as if the frame had never arrived.
\<close>

theorem malformed_frame_logged_and_dropped:
  "onmessage_try str None s = Inl SyntaxError \<and>
   onmessage_logged str None s =
     ([Console_error ''Failed to parse WebSocket message:'' SyntaxError], s) \<and>
   step str (Ws_message i None) s = s \<and>
   run str (Ws_message i None # evs) s = run str evs s"
proof -
  have thrown: "onmessage_try str None s = Inl SyntaxError"
    by (simp add: onmessage_try_def)
  then have caught: "onmessage_logged str None s =
      ([Console_error ''Failed to parse WebSocket message:'' SyntaxError], s)"
    by (simp add: onmessage_logged_def)
  then have "onmessage str None s = s"
    by (simp add: onmessage_def)
  then have "handle str (Ws_message i None) s = s"
    by simp
  then have "step str (Ws_message i None) s = s"
    by (simp add: step_def effects_same)
  with thrown caught show ?thesis by simp
qed

theorem malformed_frame_witness:
  "onmessage_logged js_string None telemetry_example =
     ([Console_error ''Failed to parse WebSocket message:'' SyntaxError], telemetry_example) \<and>
   step js_string (Ws_message 0 None) telemetry_example = telemetry_example \<and>
   data (run js_string [Ws_message 0 None, Ws_message 0 (Some (point 5))] telemetry_example) =
     data telemetry_example @ [point 5]"
proof -
  note t = malformed_frame_logged_and_dropped [of js_string telemetry_example 0
      "[Ws_message 0 (Some (point 5))]"]
  have "data (run js_string [Ws_message 0 (Some (point 5))] telemetry_example) =
      data telemetry_example @ [point 5]"
    by (simp add: telemetry_example_value opened_value step_def effects_def onmessage_unfold
        point_def)
  with t show ?thesis by simp
qed

text \<open>
  C10, as amended. A frame that reaches a terminal branch (no \<open>episode\<close> property, and
  \<open>status\<close> equal to \<open>"complete"\<close> or a truthy \<open>error\<close>) sets the running flag to
  false, and the flag stays false until the Run button is pressed.
\<close>

theorem terminal_frame_pauses:
  assumes "i < length (sockets s)" and "readyState (sockets s ! i) = OPEN"
    and "terminal_frame t"
  shows "\<not> isSimRunning (step str (Ws_message i (Some t)) s) \<and>
         (Click_run \<notin> set evs \<longrightarrow>
            \<not> isSimRunning (run str evs (step str (Ws_message i (Some t)) s)))"
proof -
  have "\<not> isSimRunning (step str (Ws_message i (Some t)) s)"
    using assms by (simp add: step_def onmessage_terminal)
  then show ?thesis by (simp add: stays_paused_run)
qed

theorem terminal_frame_pauses_witness:
  "0 < length (sockets opened) \<and> readyState (sockets opened ! 0) = OPEN \<and>
   terminal_frame (JObj [(''error'', JStr ''diverged'')]) \<and>
   isSimRunning opened \<and>
   \<not> isSimRunning
       (step js_string (Ws_message 0 (Some (JObj [(''error'', JStr ''diverged'')]))) opened) \<and>
   \<not> isSimRunning (run js_string [Click_reset, Ws_open 1, Ws_message 1 (Some (point 0))]
        (step js_string (Ws_message 0 (Some (JObj [(''error'', JStr ''diverged'')]))) opened))"
proof -
  have h: "0 < length (sockets opened)" "readyState (sockets opened ! 0) = OPEN"
    "terminal_frame (JObj [(''error'', JStr ''diverged'')])"
    by (simp_all add: opened_value terminal_frame_def)
  have r: "isSimRunning opened" by (simp add: opened_value)
  have n: "Click_run \<notin> set [Click_reset, Ws_open 1, Ws_message 1 (Some (point 0))]" by simp
  show ?thesis
    using h r n terminal_frame_pauses [OF h, of js_string
        "[Click_reset, Ws_open 1, Ws_message 1 (Some (point 0))]"]
    by blast
qed

text \<open>
  C10 as stated fails for a frame whose \<open>error\<close> property is the empty string: it has an
  error field, yet the running flag stays true.
\<close>

theorem empty_error_keeps_running:
  "isSimRunning opened \<and>
   isSimRunning (step js_string (Ws_message 0 (Some (JObj [(''error'', JStr '''')]))) opened)"
  by (simp add: opened_value step_def effects_def onmessage_unfold)

section \<open>Connections\<close>

text \<open>
  When a connecting socket opens, the page sends exactly one frame on it, and the frame
  encodes the \<open>isRunning\<close> that the socket's handlers captured.
\<close>

lemma onopen_sends_captured:
  assumes "i < length (sockets s)" and "readyState (sockets s ! i) = CONNECTING"
  shows "sent (sockets (step str (Ws_open i) s) ! i) =
         sent (sockets s ! i) @ [command_frame (captured_isRunning (sockets s ! i))]"
  using assms
  by (simp add: step_def effects_same onopen_def ws_send_def set_readyState_def)

text \<open>
  C7, at the input where the page departs from it. The user presses Pause while the
  socket is connecting. When the socket opens, the one frame sent is \<open>run\<close>, the value
  of \<open>isRunning\<close> that the handler captured when the connection was created, although
  the running flag is false by then.
\<close>

theorem open_sends_captured_run_state:
  "sent (sockets paused_before_open ! 0) = [JObj [(''command'', JStr ''run'')]] \<and>
   isSimRunning paused_before_open = False"
  by (simp add: paused_before_open_def example_defs)

text \<open>
  C8, as amended. After the Reset button or a successful apply, with a non-empty
  simulation id, the series is the one seed point of \<open>getInitialData\<close> (not the empty
  series) and the status line says connecting. One socket has been created, connecting
  to the address of the present simulation id, with nothing sent yet and with the
  \<open>isRunning\<close> and status line of that moment in its handlers; it is the socket in the
  ref. Every socket that existed before is closing or closed, and from then on a frame
  on any of them changes nothing.
\<close>

theorem reset_reseeds_and_drops_stale_frames:
  assumes reach: "s = run str evs (mount sim)"
    and ev: "reconnecting ev s"
    and s': "s' = step str ev s"
    and sid: "simulation_id (currentSim s') \<noteq> []"
  shows "data s' = getInitialData \<and>
         statusMessage s' = ''Connecting to training server...'' \<and>
         ws_current s' = Some (length (sockets s)) \<and>
         length (sockets s') = Suc (length (sockets s)) \<and>
         sockets s' ! length (sockets s) =
           \<lparr>url = ''ws://localhost:8000/ws/train/'' @ simulation_id (currentSim s'),
            readyState = CONNECTING, sent = [],
            captured_isRunning = isSimRunning s,
            captured_statusMessage = statusMessage s\<rparr> \<and>
         (\<forall>j < length (sockets s).
            readyState (sockets s' ! j) = CLOSING \<or> readyState (sockets s' ! j) = CLOSED) \<and>
         (\<forall>evs' i frame. i < length (sockets s) \<longrightarrow>
            step str (Ws_message i frame) (run str evs' s') = run str evs' s')"
proof -
  let ?h = "handle str ev s"
  note h = reconnecting_handle [OF ev, of str]
  have st: "s' = connection_effect ?h"
    unfolding s' using h(1,2) by (intro step_reconnects) simp_all
  have sid': "simulation_id (currentSim ?h) \<noteq> []"
    using sid by (simp add: st)
  note fresh = connection_effect_fresh [OF sid']
  have "sock_inv 0 s"
    by (simp add: reach sock_inv_run sock_inv_mount)
  then have "sock_inv 0 ?h"
    by (rule sock_inv_handle)
  then have "sock_inv (length (sockets ?h)) s'"
    unfolding st using sid' by (rule sock_inv_fresh)
  then have inv: "sock_inv (length (sockets s)) s'"
    by (simp add: h(3))
  have seeded: "data s' = getInitialData"
      "statusMessage s' = ''Connecting to training server...''"
      "ws_current s' = Some (length (sockets s))"
      "length (sockets s') = Suc (length (sockets s))"
    using fresh(1-4) by (simp_all add: st h(3))
  have created: "sockets s' ! length (sockets s) =
      \<lparr>url = ''ws://localhost:8000/ws/train/'' @ simulation_id (currentSim s'),
       readyState = CONNECTING, sent = [],
       captured_isRunning = isSimRunning s,
       captured_statusMessage = statusMessage s\<rparr>"
    using fresh(5) by (simp add: st h(2,3,5))
  have earlier: "readyState (sockets s' ! j) = CLOSING \<or> readyState (sockets s' ! j) = CLOSED"
    if "j < length (sockets s)" for j
    using inv that by (rule sock_inv_earlier_settled)
  have stale: "step str (Ws_message i frame) (run str evs' s') = run str evs' s'"
    if "i < length (sockets s)" for evs' i frame
    using sock_inv_run [OF inv] that by (rule stale_frame_dropped)
  from seeded created earlier stale show ?thesis by blast
qed

theorem reset_reseeds_witness:
  "reconnecting Click_reset opened \<and>
   simulation_id (currentSim (step js_string Click_reset opened)) = ''sim-1'' \<and>
   data (step js_string Click_reset opened) = getInitialData \<and>
   statusMessage (step js_string Click_reset opened) = ''Connecting to training server...'' \<and>
   ws_current (step js_string Click_reset opened) = Some 1 \<and>
   length (sockets (step js_string Click_reset opened)) = 2 \<and>
   sockets (step js_string Click_reset opened) ! 1 =
     \<lparr>url = ''ws://localhost:8000/ws/train/sim-1'', readyState = CONNECTING, sent = [],
      captured_isRunning = True, captured_statusMessage = ''Training started...''\<rparr> \<and>
   readyState (sockets (step js_string Click_reset opened) ! 0) = CLOSING \<and>
   step js_string (Ws_message 0 (Some (point 5)))
       (run js_string [Ws_open 1] (step js_string Click_reset opened)) =
     run js_string [Ws_open 1] (step js_string Click_reset opened)"
proof -
  have h: "reconnecting Click_reset opened"
    "simulation_id (currentSim (step js_string Click_reset opened)) \<noteq> []"
    by (simp_all add: reconnecting_def step_def opened_value sim1_def)
  have v: "simulation_id (currentSim (step js_string Click_reset opened)) = ''sim-1''"
    "length (sockets opened) = 1" "isSimRunning opened = True"
    "statusMessage opened = ''Training started...''"
    by (simp_all add: step_def opened_value sim1_def)
  have i: "0 < length (sockets opened)" by (simp add: v)
  have closing: "readyState (sockets (step js_string Click_reset opened) ! 0) = CLOSING"
    by (simp add: opened_value step_def effects_def connection_effect_def Let_def ws_close_def
        sim1_def nth_append)
  note t = reset_reseeds_and_drops_stale_frames [OF opened_def h(1) refl h(2)]
  have seeded: "data (step js_string Click_reset opened) = getInitialData"
    "statusMessage (step js_string Click_reset opened) = ''Connecting to training server...''"
    using t by blast+
  have "ws_current (step js_string Click_reset opened) = Some (length (sockets opened))"
    "length (sockets (step js_string Click_reset opened)) = Suc (length (sockets opened))"
    "sockets (step js_string Click_reset opened) ! length (sockets opened) =
       \<lparr>url = ''ws://localhost:8000/ws/train/'' @
          simulation_id (currentSim (step js_string Click_reset opened)),
        readyState = CONNECTING, sent = [],
        captured_isRunning = isSimRunning opened,
        captured_statusMessage = statusMessage opened\<rparr>"
    using t by blast+
  then have created: "ws_current (step js_string Click_reset opened) = Some 1"
    "length (sockets (step js_string Click_reset opened)) = 2"
    "sockets (step js_string Click_reset opened) ! 1 =
     \<lparr>url = ''ws://localhost:8000/ws/train/sim-1'', readyState = CONNECTING, sent = [],
      captured_isRunning = True, captured_statusMessage = ''Training started...''\<rparr>"
    by (simp_all add: v)
  have stale: "step js_string (Ws_message 0 (Some (point 5)))
         (run js_string [Ws_open 1] (step js_string Click_reset opened)) =
       run js_string [Ws_open 1] (step js_string Click_reset opened)"
    using t i by blast
  from h(1) v(1) seeded created closing stale show ?thesis by blast
qed

text \<open>C8 as stated fails: after a reset the series holds the seed point, it is not empty.\<close>

theorem reset_series_not_empty:
  "data (step js_string Click_reset telemetry_example) =
     [JObj [(''episode'', JNum 0), (''reward'', JNum 0), (''length'', JNum 0)]] \<and>
   data (step js_string Click_reset telemetry_example) \<noteq> []"
  by (simp add: telemetry_example_value opened_value step_def effects_def connection_effect_def
      Let_def ws_close_def sim1_def getInitialData_def)

section \<open>Refining the model\<close>

text \<open>
  C3, as amended. A successful apply replaces \<open>simulation_id\<close> and \<open>model_xml\<close> by the
  response's and keeps the revision key: \<open>currentSim\<close> still holds the key the session
  started with, whatever the response carries, and every \<open>plan_edits\<close> and
  \<open>apply_edits\<close> request issued afterwards carries that same key.
\<close>

theorem revision_key_kept_after_apply:
  assumes "s = run str evs (mount sim)"
    and "i < length (in_flight s)" and "awaiting (in_flight s ! i) = Applying"
  shows "currentSim (step str (Apply_response i (Response True (Some b))) s) =
           \<lparr>simulation_id = resp_simulation_id b, model_xml = resp_model_xml b,
            xml_key = xml_key sim\<rparr> \<and>
         list_all (\<lambda>r. request_key r = xml_key sim)
           (requests (run str evs' (step str (Apply_response i (Response True (Some b))) s)))"
proof -
  have inv: "refine_inv (xml_key sim) s"
    by (simp add: assms(1) refine_inv_reach)
  have "xml_key (call_sim (in_flight s ! i)) = xml_key sim"
    using single_call(3,6) [OF inv assms(2)] by simp
  then have "currentSim (step str (Apply_response i (Response True (Some b))) s) =
      \<lparr>simulation_id = resp_simulation_id b, model_xml = resp_model_xml b,
       xml_key = xml_key sim\<rparr>"
    using assms(2,3) by (simp add: step_def apply_resolved_def Let_def)
  moreover have "refine_inv (xml_key sim)
      (run str evs' (step str (Apply_response i (Response True (Some b))) s))"
    using inv by (intro refine_inv_run refine_inv_step)
  ultimately show ?thesis by (simp add: refine_inv_def)
qed

theorem revision_key_kept_witness:
  "0 < length (in_flight applying) \<and> awaiting (in_flight applying ! 0) = Applying \<and>
   currentSim (step js_string (Apply_response 0 apply_ok) applying) =
     \<lparr>simulation_id = ''sim-2'', model_xml = ''<mujoco2/>'', xml_key = ''k1''\<rparr> \<and>
   list_all (\<lambda>r. request_key r = ''k1'') (requests rotation_example)"
proof -
  have h: "0 < length (in_flight applying)" "awaiting (in_flight applying ! 0) = Applying"
    by (simp_all add: applying_value)
  show ?thesis
    using h revision_key_kept_after_apply [OF applying_def h, of "\<lparr>resp_simulation_id = ''sim-2'',
      resp_model_xml = ''<mujoco2/>'', resp_xml_key = Some ''k2''\<rparr>"
      "[Type_prompt ''lighter'', Submit_refine, Plan_response 0 plan_ok]"]
    by (simp add: rotation_example_def apply_ok_def sim1_def)
qed

text \<open>
  C3 as stated fails: the apply succeeded with a body carrying the key \<open>k2\<close>, and the
  next \<open>plan_edits\<close> and \<open>apply_edits\<close> requests still carry \<open>k1\<close>, the key that was
  current before it.
\<close>

theorem revision_key_not_rotated:
  "requests rotation_example =
     [Plan_edits ''stronger'' ''k1'', Apply_edits ''k1'' [JStr ''stiffen the legs''],
      Plan_edits ''lighter'' ''k1'', Apply_edits ''k1'' [JStr ''stiffen the legs'']] \<and>
   xml_key (currentSim rotation_example) = ''k1'' \<and>
   xml_key (currentSim rotation_example) \<noteq> ''k2''"
  by (simp add: rotation_example_def applying_value example_defs refine_defs)

text \<open>
  C4. When the \<open>apply_edits\<close> response is not \<open>ok\<close>, the only change is that the call
  is over: \<open>currentSim\<close> is what it was when the call was made, no request is added, and
  \<open>isRefining\<close> is false again, so that the next submitted prompt is accepted and its
  \<open>plan_edits\<close> request issued.
\<close>

theorem failed_apply_leaves_revision:
  assumes "s = run str evs (mount sim)"
    and "i < length (in_flight s)" and "awaiting (in_flight s ! i) = Applying"
    and "s' = step str (Apply_response i (Response False body)) s"
  shows "s' = s\<lparr>isRefining := False, in_flight := []\<rparr> \<and>
         currentSim s' = call_sim (in_flight s ! i) \<and>
         (p \<noteq> [] \<longrightarrow>
            isRefining (run str [Type_prompt p, Submit_refine] s') \<and>
            requests (run str [Type_prompt p, Submit_refine] s') =
              requests s @ [Plan_edits p (xml_key (currentSim s))])"
proof -
  have inv: "refine_inv (xml_key sim) s"
    by (simp add: assms(1) refine_inv_reach)
  have "handle str (Apply_response i (Response False body)) s =
      s\<lparr>isRefining := False, in_flight := []\<rparr>"
    using assms(2,3) single_call(5) [OF inv assms(2)]
    by (simp add: apply_resolved_def refine_failed_def)
  then have eq: "s' = s\<lparr>isRefining := False, in_flight := []\<rparr>"
    by (simp add: assms(4) step_def effects_same)
  have "currentSim s' = call_sim (in_flight s ! i)"
    using single_call(3) [OF inv assms(2)] by (simp add: eq)
  moreover have "isRefining (run str [Type_prompt p, Submit_refine] s') \<and>
            requests (run str [Type_prompt p, Submit_refine] s') =
              requests s @ [Plan_edits p (xml_key (currentSim s))]" if "p \<noteq> []"
    using that by (simp add: eq step_def effects_same handleRefineSubmit_def)
  ultimately show ?thesis using eq by blast
qed

theorem failed_apply_witness:
  "0 < length (in_flight applying) \<and> awaiting (in_flight applying ! 0) = Applying \<and>
   step js_string (Apply_response 0 (Response False None)) applying =
     applying\<lparr>isRefining := False, in_flight := []\<rparr> \<and>
   currentSim (step js_string (Apply_response 0 (Response False None)) applying) = sim1 \<and>
   isRefining (run js_string [Type_prompt ''lighter'', Submit_refine]
      (step js_string (Apply_response 0 (Response False None)) applying)) \<and>
   requests (run js_string [Type_prompt ''lighter'', Submit_refine]
      (step js_string (Apply_response 0 (Response False None)) applying)) =
     [Plan_edits ''stronger'' ''k1'', Apply_edits ''k1'' [JStr ''stiffen the legs''],
      Plan_edits ''lighter'' ''k1'']"
proof -
  have h: "0 < length (in_flight applying)" "awaiting (in_flight applying ! 0) = Applying"
    by (simp_all add: applying_value)
  have v: "call_sim (in_flight applying ! 0) = sim1" "requests applying =
      [Plan_edits ''stronger'' ''k1'', Apply_edits ''k1'' [JStr ''stiffen the legs'']]"
      "xml_key (currentSim applying) = ''k1''"
    by (simp_all add: applying_value mount_fields sim1_def)
  have p: "''lighter'' \<noteq> []" by simp
  have t: "step js_string (Apply_response 0 (Response False None)) applying =
      applying\<lparr>isRefining := False, in_flight := []\<rparr>"
    "currentSim (step js_string (Apply_response 0 (Response False None)) applying) =
      call_sim (in_flight applying ! 0)"
    "isRefining (run js_string [Type_prompt ''lighter'', Submit_refine]
      (step js_string (Apply_response 0 (Response False None)) applying))"
    "requests (run js_string [Type_prompt ''lighter'', Submit_refine]
      (step js_string (Apply_response 0 (Response False None)) applying)) =
     requests applying @ [Plan_edits ''lighter'' (xml_key (currentSim applying))]"
    using failed_apply_leaves_revision [OF applying_def h refl, of None "''lighter''"] p
    by blast+
  have c: "currentSim (step js_string (Apply_response 0 (Response False None)) applying) = sim1"
    using t(2) v(1) by simp
  have r: "requests (run js_string [Type_prompt ''lighter'', Submit_refine]
      (step js_string (Apply_response 0 (Response False None)) applying)) =
     [Plan_edits ''stronger'' ''k1'', Apply_edits ''k1'' [JStr ''stiffen the legs''],
      Plan_edits ''lighter'' ''k1'']"
    using t(4) v(2,3) by simp
  show ?thesis
    using h t(1) c t(3) r by blast
qed

text \<open>
  C5. In every reachable state at most one refine call is in flight, and while one is,
  submitting the form again changes nothing at all: no request is issued and no part of
  the state moves.
\<close>

theorem refine_rejected_while_in_flight:
  assumes "s = run str evs (mount sim)"
  shows "length (in_flight s) \<le> 1 \<and> (in_flight s \<noteq> [] \<longrightarrow> step str Submit_refine s = s)"
proof -
  have inv: "refine_inv (xml_key sim) s"
    by (simp add: assms refine_inv_reach)
  then have "isRefining s" if "in_flight s \<noteq> []"
    using that by (simp add: refine_inv_def)
  then have "step str Submit_refine s = s" if "in_flight s \<noteq> []"
    using that by (simp add: step_def handleRefineSubmit_def effects_same)
  then show ?thesis using inv by (simp add: refine_inv_def)
qed

theorem refine_rejected_witness:
  "in_flight planning = [\<lparr>awaiting = Planning, call_prompt = ''stronger'', call_sim = sim1\<rparr>] \<and>
   step js_string Submit_refine planning = planning \<and>
   requests (step js_string Submit_refine planning) = [Plan_edits ''stronger'' ''k1'']"
  using refine_rejected_while_in_flight [OF planning_def] by (simp add: planning_value)

text \<open>
  C6. When the plan has no edits (an empty list, or none at all), the call ends there:
  no \<open>apply_edits\<close> request is issued, \<open>currentSim\<close> is unchanged, \<open>isRefining\<close> is
  false again, and no later response can resume the call.
\<close>

theorem empty_plan_skips_apply:
  assumes "s = run str evs (mount sim)"
    and "i < length (in_flight s)" and "awaiting (in_flight s ! i) = Planning"
    and "edits p = None \<or> edits p = Some []"
    and "s' = step str (Plan_response i (Response True (Some p))) s"
  shows "s' = s\<lparr>input_value := [], isRefining := False, in_flight := []\<rparr> \<and>
         requests s' = requests s \<and> currentSim s' = currentSim s \<and>
         step str (Apply_response j r) s' = s'"
proof -
  have inv: "refine_inv (xml_key sim) s"
    by (simp add: assms(1) refine_inv_reach)
  have "handle str (Plan_response i (Response True (Some p))) s =
      s\<lparr>input_value := [], isRefining := False, in_flight := []\<rparr>"
    using assms(2,3,4) single_call(5) [OF inv assms(2)]
    by (auto simp: plan_resolved_def)
  then have eq: "s' = s\<lparr>input_value := [], isRefining := False, in_flight := []\<rparr>"
    by (simp add: assms(5) step_def effects_same)
  have "step str (Apply_response j r) s' = s'"
    by (simp add: eq step_def apply_resolved_def effects_same)
  then show ?thesis using eq by simp
qed

theorem empty_plan_witness:
  "0 < length (in_flight planning) \<and> awaiting (in_flight planning ! 0) = Planning \<and>
   step js_string (Plan_response 0 (Response True (Some \<lparr>edits = Some []\<rparr>))) planning =
     planning\<lparr>input_value := [], isRefining := False, in_flight := []\<rparr> \<and>
   requests (step js_string (Plan_response 0 (Response True (Some \<lparr>edits = Some []\<rparr>))) planning) =
     [Plan_edits ''stronger'' ''k1''] \<and>
   currentSim (step js_string (Plan_response 0 (Response True (Some \<lparr>edits = Some []\<rparr>))) planning) =
     sim1"
proof -
  have h: "0 < length (in_flight planning)" "awaiting (in_flight planning ! 0) = Planning"
    by (simp_all add: planning_value)
  have e: "edits \<lparr>edits = Some []\<rparr> = None \<or> edits \<lparr>edits = Some ([] :: json list)\<rparr> = Some []"
    by simp
  have v: "requests planning = [Plan_edits ''stronger'' ''k1'']" "currentSim planning = sim1"
    by (simp_all add: planning_value mount_fields)
  have t: "step js_string (Plan_response 0 (Response True (Some \<lparr>edits = Some []\<rparr>))) planning =
      planning\<lparr>input_value := [], isRefining := False, in_flight := []\<rparr>"
    using empty_plan_skips_apply [OF planning_def h e refl, of 0 Network_failure] by blast
  have r: "requests (step js_string (Plan_response 0 (Response True (Some \<lparr>edits = Some []\<rparr>))) planning) =
      [Plan_edits ''stronger'' ''k1'']"
    "currentSim (step js_string (Plan_response 0 (Response True (Some \<lparr>edits = Some []\<rparr>))) planning) =
      sim1"
    by (simp_all add: t v)
  show ?thesis
    using h t r by blast
qed

end
